theory Spec2Isabelle
  imports Main
begin

section \<open>Errors and strings\<close>

text \<open>
  A Go \<open>error\<close> made with \<open>errors.New\<close> carries nothing but its message, so an error
  value is its message and a nil error is \<open>None\<close>.
\<close>

type_synonym error = string

text \<open>\<open>strings.HasPrefix\<close> and \<open>strings.Contains\<close> on byte strings.\<close>

fun HasPrefix :: "string \<Rightarrow> string \<Rightarrow> bool" where
  "HasPrefix s [] = True"
| "HasPrefix [] (p # ps) = False"
| "HasPrefix (c # cs) (p # ps) = (c = p \<and> HasPrefix cs ps)"

fun Contains :: "string \<Rightarrow> string \<Rightarrow> bool" where
  "Contains [] substr = (substr = [])"
| "Contains (c # cs) substr = (HasPrefix (c # cs) substr \<or> Contains cs substr)"

section \<open>The graceful server (server.go)\<close>

definition useClosedConn :: string where
  "useClosedConn = ''use of closed network connection''"

text \<open>The connection states net/http reports to the \<open>ConnState\<close> hook.\<close>

datatype ConnState = StateNew | StateActive | StateIdle | StateHijacked | StateClosed

text \<open>
  The signals \<open>closeNotify\<close> names, and any other signal number.
\<close>

datatype Signal = SIGINT | SIGQUIT | SIGTERM | SIGKILL | SIGUSR2 | SIGOTHER nat

text \<open>
  Where the \<open>for { select { ... } }\<close> loop of \<open>serve\<close> stands: at the \<open>select\<close>,
  inside \<open>s.wg.Wait()\<close>, returned with an error, or the process has died of a panic.
\<close>

datatype pc = Selecting | Waiting | Returned error | Crashed string

text \<open>
  One \<open>server\<close> together with the goroutines \<open>serve\<close> starts.
  \<^item> \<open>KeepAlivesEnabled\<close>: the flag \<open>SetKeepAlivesEnabled\<close> sets on the embedded
    \<open>http.Server\<close>;
  \<^item> \<open>wg\<close>: the counter of the \<open>sync.WaitGroup\<close>;
  \<^item> \<open>quit\<close>, \<open>fquit\<close>: the number of values queued in the two buffered channels
    (\<open>chan struct{}\<close>, made with capacity 1 by \<open>Cherry.serve\<close>);
  \<^item> \<open>errChan\<close>: the values queued in \<open>errChan\<close> (capacity 1);
  \<^item> \<open>listenerClosed\<close>: \<open>l.Close()\<close> has been called;
  \<^item> \<open>serving\<close>: the goroutine running \<open>s.Server.Serve(l)\<close> has not yet returned;
  \<^item> \<open>notifying\<close>: the goroutine running \<open>closeNotify\<close> still waits at \<open>sign := <-sig\<close>;
  \<^item> \<open>at\<close>: the program point of \<open>serve\<close> itself.
\<close>

record server =
  KeepAlivesEnabled :: bool
  wg :: int
  quit :: nat
  fquit :: nat
  errChan :: "error list"
  listenerClosed :: bool
  serving :: bool
  notifying :: bool
  at :: pc

text \<open>
  The state in which \<open>serve\<close> reaches its loop: fresh channels, a zero WaitGroup,
  keep-alives on (the default of \<open>http.Server\<close>), both helper goroutines started.
\<close>

definition fresh :: server where
  "fresh = \<lparr>KeepAlivesEnabled = True, wg = 0, quit = 0, fquit = 0, errChan = [],
     listenerClosed = False, serving = True, notifying = True, at = Selecting\<rparr>"

text \<open>
  \<open>sync.WaitGroup.Add\<close>: adds the delta and panics when the counter becomes negative.
  \<open>Done\<close> is \<open>Add(-1)\<close>.
\<close>

definition wg_Add :: "server \<Rightarrow> int \<Rightarrow> string + server" where
  "wg_Add s delta =
     (if wg s + delta < 0 then Inl ''sync: negative WaitGroup counter''
      else Inr (s\<lparr>wg := wg s + delta\<rparr>))"

text \<open>
  The hook \<open>serve\<close> installs as \<open>s.Server.ConnState\<close>:
  \<^verbatim>\<open>
  switch state {
  case http.StateNew:                         s.wg.Add(1)
  case http.StateClosed, http.StateHijacked:  s.wg.Done()
  }
  \<close>
\<close>

fun ConnState_hook :: "server \<Rightarrow> ConnState \<Rightarrow> string + server" where
  "ConnState_hook s StateNew = wg_Add s 1"
| "ConnState_hook s StateClosed = wg_Add s (- 1)"
| "ConnState_hook s StateHijacked = wg_Add s (- 1)"
| "ConnState_hook s StateActive = Inr s"
| "ConnState_hook s StateIdle = Inr s"

text \<open>The signals \<open>closeNotify\<close> subscribes to with \<open>signal.Notify\<close>.\<close>

definition subscribed :: "Signal list" where
  "subscribed = [SIGTERM, SIGQUIT, SIGUSR2, SIGINT]"

text \<open>
  \<open>closeNotify\<close> after \<open>sign := <-sig\<close>: the \<open>switch sign\<close>. A send on a buffered
  channel queues one value; a panic is \<open>Inl\<close> of its message. A signal that no case
  names falls through the switch and the goroutine ends.
\<close>

definition closeNotify :: "server \<Rightarrow> Signal \<Rightarrow> string + server" where
  "closeNotify s sign =
     (if sign = SIGTERM \<or> sign = SIGQUIT \<or> sign = SIGINT then
        Inr (s\<lparr>listenerClosed := True, quit := quit s + 1, notifying := False\<rparr>)
      else if sign = SIGKILL then
        Inr (s\<lparr>listenerClosed := True, fquit := fquit s + 1, notifying := False\<rparr>)
      else if sign = SIGUSR2 then
        Inl ''USR2 => not implemented''
      else Inr (s\<lparr>notifying := False\<rparr>))"

text \<open>
  What can happen next to a running server, one atomic step of one goroutine each:
  \<^item> \<open>Hook st\<close>: net/http calls the \<open>ConnState\<close> hook with \<open>st\<close>;
  \<^item> \<open>Notify sign\<close>: \<open>closeNotify\<close> receives \<open>sign\<close> and runs its switch;
  \<^item> \<open>ServeExit err\<close>: \<open>s.Server.Serve(l)\<close> returns \<open>err\<close>, which is sent on \<open>errChan\<close>;
  \<^item> \<open>SelectErr\<close>, \<open>SelectQuit\<close>, \<open>SelectFquit\<close>: the \<open>select\<close> of \<open>serve\<close> takes
    the case of \<open>errChan\<close>, \<open>s.quit\<close> or \<open>s.fquit\<close>;
  \<^item> \<open>WaitDone\<close>: \<open>s.wg.Wait()\<close> is released.
\<close>

datatype event =
    Hook ConnState
  | Notify Signal
  | ServeExit error
  | SelectErr
  | SelectQuit
  | SelectFquit
  | WaitDone

text \<open>
  The three cases of the \<open>select\<close> and the wait, as \<open>serve\<close> writes them:
  \<^verbatim>\<open>
  case err := <-errChan:
      if strings.Contains(err.Error(), useClosedConn) { continue }
      return err
  case <-s.quit:
      s.SetKeepAlivesEnabled(false)
      s.wg.Wait()
      return errors.New("server stopped gracefully")
  case <-s.fquit:
      return errors.New("server stopped: process killed")
  \<close>
  A case can be taken only when its channel holds a value, and \<open>Wait\<close> is released only
  when the counter is zero: otherwise the step is not enabled (\<open>None\<close>).
\<close>

definition select_errChan :: "server \<Rightarrow> server option" where
  "select_errChan s =
     (case errChan s of
        [] \<Rightarrow> None
      | err # rest \<Rightarrow>
          if Contains err useClosedConn then Some (s\<lparr>errChan := rest\<rparr>)
          else Some (s\<lparr>errChan := rest, at := Returned err\<rparr>))"

definition select_quit :: "server \<Rightarrow> server option" where
  "select_quit s =
     (if quit s = 0 then None
      else Some (s\<lparr>quit := quit s - 1, KeepAlivesEnabled := False, at := Waiting\<rparr>))"

definition select_fquit :: "server \<Rightarrow> server option" where
  "select_fquit s =
     (if fquit s = 0 then None
      else Some (s\<lparr>fquit := fquit s - 1, at := Returned ''server stopped: process killed''\<rparr>))"

definition wg_Wait :: "server \<Rightarrow> server option" where
  "wg_Wait s =
     (if wg s = 0 then Some (s\<lparr>at := Returned ''server stopped gracefully''\<rparr>) else None)"

text \<open>A panic in any goroutine ends the process.\<close>

definition crash :: "server \<Rightarrow> string + server \<Rightarrow> server" where
  "crash s r = (case r of Inl msg \<Rightarrow> s\<lparr>at := Crashed msg\<rparr> | Inr s' \<Rightarrow> s')"

definition dead :: "server \<Rightarrow> bool" where
  "dead s = (case at s of Crashed msg \<Rightarrow> True | _ \<Rightarrow> False)"

text \<open>
  One step. The hook, the signal and the exit of \<open>Serve\<close> come from outside \<open>serve\<close> and
  are possible wherever \<open>serve\<close> stands, as long as the process lives; a signal reaches
  \<open>closeNotify\<close> only if it is subscribed and \<open>closeNotify\<close> still waits for one; the
  cases of the \<open>select\<close> need \<open>serve\<close> at the \<open>select\<close>, the release of \<open>Wait\<close> needs it
  inside \<open>Wait\<close>.
\<close>

fun fire :: "server \<Rightarrow> event \<Rightarrow> server option" where
  "fire s (Hook st) = (if dead s then None else Some (crash s (ConnState_hook s st)))"
| "fire s (Notify sign) =
     (if dead s \<or> \<not> notifying s \<or> sign \<notin> set subscribed then None
      else Some (crash s (closeNotify s sign)))"
| "fire s (ServeExit err) =
     (if dead s \<or> \<not> serving s then None
      else Some (s\<lparr>serving := False, errChan := errChan s @ [err]\<rparr>))"
| "fire s SelectErr = (if at s = Selecting then select_errChan s else None)"
| "fire s SelectQuit = (if at s = Selecting then select_quit s else None)"
| "fire s SelectFquit = (if at s = Selecting then select_fquit s else None)"
| "fire s WaitDone = (if at s = Waiting then wg_Wait s else None)"

text \<open>A run: the events of a schedule, fired in order; \<open>None\<close> if one is not enabled.\<close>

fun run :: "server \<Rightarrow> event list \<Rightarrow> server option" where
  "run s [] = Some s"
| "run s (e # es) = (case fire s e of None \<Rightarrow> None | Some s' \<Rightarrow> run s' es)"

text \<open>
  What an event asks of the live-connection counter: plus one for a connection entering
  \<open>StateNew\<close>, minus one for a transition to \<open>StateClosed\<close> or \<open>StateHijacked\<close>,
  nothing otherwise.
\<close>

fun counted :: "event \<Rightarrow> int" where
  "counted (Hook StateNew) = 1"
| "counted (Hook StateClosed) = - 1"
| "counted (Hook StateHijacked) = - 1"
| "counted e = 0"

text \<open>
  A schedule of a graceful stop with one connection in flight: the connection opens,
  SIGTERM arrives, \<open>Serve\<close> fails on the closed listener, the loop skips that error and
  takes the quit case, the connection finishes, and the wait is released.
\<close>

definition demo :: "event list" where
  "demo = [Hook StateNew, Notify SIGTERM,
           ServeExit ''accept tcp [::]:3000: use of closed network connection'',
           SelectErr, SelectQuit, Hook StateActive, Hook StateClosed, WaitDone]"

definition demo_end :: server where
  "demo_end = fresh\<lparr>KeepAlivesEnabled := False, listenerClosed := True,
     serving := False, notifying := False, at := Returned ''server stopped gracefully''\<rparr>"

section \<open>Slices of the Go runtime\<close>

text \<open>
  \<open>Cherry.middleware\<close> is a Go slice: a header (pointer to a backing array, length,
  capacity) that is copied with the struct, while the backing array stays where it is.
  \<open>Group\<close> copies the struct and \<open>Use\<close> appends, so the header and the array are both
  modelled. A backing array is the list of the elements written to it so far; address 0
  is never allocated and stands for the nil slice.
\<close>

record slice =
  array :: nat
  len :: nat
  cap :: nat

definition nil :: slice where
  "nil = \<lparr>array = 0, len = 0, cap = 0\<rparr>"

text \<open>
  The store of backing arrays. \<open>growcap\<close> is the capacity the runtime gives a new array,
  from the old capacity and the length needed; it belongs to the Go runtime, not to the
  repository.
\<close>

record 'a runtime =
  arrays :: "nat \<Rightarrow> 'a list"
  lim :: nat
  growcap :: "nat \<Rightarrow> nat \<Rightarrow> nat"

text \<open>
  The policy of the gc runtime for slices of function values (eight bytes each) that
  stay within 64 elements: the length needed if that is more than twice the old
  capacity, twice the old capacity otherwise, and then as many elements as fit the
  allocation size class of that many bytes. Five handlers appended to the nil slice
  get the capacity 6; three appends of one element each give the capacities 1, 2 and 4.
  The size classes above 512 bytes and the growth of slices from 256 elements on differ
  between releases of the runtime; a request beyond the table is left as it is.
\<close>

definition size_classes :: "nat list" where
  "size_classes = [8, 16, 24, 32, 48, 64, 80, 96, 112, 128, 144, 160, 176, 192, 208, 224,
                   240, 256, 288, 320, 352, 384, 416, 448, 480, 512]"

definition roundupsize :: "nat \<Rightarrow> nat" where
  "roundupsize n = (case find (\<lambda>c. n \<le> c) size_classes of None \<Rightarrow> n | Some c \<Rightarrow> c)"

definition go_growcap :: "nat \<Rightarrow> nat \<Rightarrow> nat" where
  "go_growcap oldCap newLen =
     (let newcap = (if newLen > oldCap + oldCap then newLen else oldCap + oldCap)
      in roundupsize (newcap * 8) div 8)"

definition go_runtime :: "'a runtime" where
  "go_runtime = \<lparr>arrays = (\<lambda>a. []), lim = 1, growcap = go_growcap\<rparr>"

text \<open>The elements a slice shows: the first \<open>len\<close> elements of its backing array.\<close>

definition elems :: "'a runtime \<Rightarrow> slice \<Rightarrow> 'a list" where
  "elems rt s = take (len s) (arrays rt (array s))"

text \<open>
  The builtin \<open>append(s, xs...)\<close>: when the capacity suffices the new elements are
  written into the backing array of \<open>s\<close>, right after its first \<open>len s\<close> elements, and
  the result shares that array; otherwise a new array is allocated and the elements are
  copied.
\<close>

definition append_slice :: "'a runtime \<Rightarrow> slice \<Rightarrow> 'a list \<Rightarrow> 'a runtime \<times> slice" where
  "append_slice rt s xs =
     (let n = len s + length xs;
          old = arrays rt (array s)
      in if n \<le> cap s then
           (rt\<lparr>arrays := (arrays rt)(array s := take (len s) old @ xs @ drop n old)\<rparr>,
            s\<lparr>len := n\<rparr>)
         else
           (rt\<lparr>arrays := (arrays rt)(lim rt := take (len s) old @ xs), lim := lim rt + 1\<rparr>,
            \<lparr>array = lim rt, len = n, cap = growcap rt (cap s) n\<rparr>))"

section \<open>Requests and response writers\<close>

text \<open>
  \<open>http.Header\<close> with single values, as \<open>Set\<close>, \<open>Del\<close> and \<open>Get\<close> use it.
\<close>

type_synonym Header = "(string \<times> string) list"

definition Header_Del :: "Header \<Rightarrow> string \<Rightarrow> Header" where
  "Header_Del h k = filter (\<lambda>kv. fst kv \<noteq> k) h"

definition Header_Set :: "Header \<Rightarrow> string \<Rightarrow> string \<Rightarrow> Header" where
  "Header_Set h k v = (k, v) # Header_Del h k"

definition Header_Get :: "Header \<Rightarrow> string \<Rightarrow> string" where
  "Header_Get h k = (case map_of h k of None \<Rightarrow> [] | Some v \<Rightarrow> v)"

definition StatusOK :: int where
  "StatusOK = 200"



definition StatusInternalServerError :: int where
  "StatusInternalServerError = 500"

text \<open>
  The \<open>http.ResponseWriter\<close> that net/http (or a test recorder) hands in:
  \<^item> \<open>header\<close>: the header map behind \<open>Header()\<close>;
  \<^item> \<open>codes\<close>: the status codes passed to \<open>WriteHeader\<close>, in the order of the calls;
  \<^item> \<open>sent\<close>: the status and the headers of the response itself, \<open>None\<close> as long as
    nothing has been written. The first \<open>WriteHeader\<close> fixes them, with the header map
    as it is at that moment; a \<open>Write\<close> before any \<open>WriteHeader\<close> fixes them with status
    200; later \<open>WriteHeader\<close> calls and later changes of the map do not reach the
    response;
  \<^item> \<open>body\<close>: the bytes passed to \<open>Write\<close>.
  net/http panics on a status code outside 100 to 999, so a handler that passes one does
  not return; the calls spoken of below are calls that return.
\<close>

record ResponseWriter =
  header :: Header
  codes :: "int list"
  sent :: "(int \<times> Header) option"
  body :: string

definition emptyWriter :: ResponseWriter where
  "emptyWriter = \<lparr>header = [], codes = [], sent = None, body = []\<rparr>"

definition WriteHeader :: "ResponseWriter \<Rightarrow> int \<Rightarrow> ResponseWriter" where
  "WriteHeader w code =
     w\<lparr>codes := codes w @ [code],
       sent := (case sent w of None \<Rightarrow> Some (code, header w) | Some first \<Rightarrow> Some first)\<rparr>"

text \<open>\<open>Write\<close> takes all the bytes and returns their number (and a nil error).\<close>

definition Write :: "ResponseWriter \<Rightarrow> string \<Rightarrow> ResponseWriter \<times> int" where
  "Write w p =
     (w\<lparr>sent := (case sent w of None \<Rightarrow> Some (StatusOK, header w) | Some first \<Rightarrow> Some first),
        body := body w @ p\<rparr>,
      int (length p))"

text \<open>
  The fields of \<open>http.Request\<close> the package reads: \<open>User\<close> is the user name of
  \<open>r.URL.User\<close>, \<open>None\<close> when \<open>r.URL.User\<close> is nil.
\<close>

record Request =
  Method :: string
  Host :: string
  RequestURI :: string
  Proto :: string
  User :: "string option"

text \<open>
  \<open>http.Error\<close> of net/http: drops \<open>Content-Length\<close>, sets the content type to plain
  text and \<open>X-Content-Type-Options\<close>, writes the status code, then prints the message and
  a newline.
\<close>

definition http_Error :: "ResponseWriter \<Rightarrow> string \<Rightarrow> int \<Rightarrow> ResponseWriter" where
  "http_Error w err code =
     (let h = Header_Del (header w) ''Content-Length'';
          h = Header_Set h ''Content-Type'' ''text/plain; charset=utf-8'';
          h = Header_Set h ''X-Content-Type-Options'' ''nosniff'';
          w = WriteHeader (w\<lparr>header := h\<rparr>) code
      in fst (Write w (err @ [CHR 0x0A])))"


section \<open>The request context (Context)\<close>

text \<open>
  A \<open>context.Context\<close> as a chain of key/value pairs, the newest first:
  \<open>context.Background()\<close> is the empty chain, \<open>context.WithValue\<close> puts a pair in front
  and leaves its parent as it is, \<open>Value\<close> finds the newest pair of a key.
\<close>

type_synonym carried = "(string \<times> string) list"

definition Background :: carried where
  "Background = []"

definition WithValue :: "carried \<Rightarrow> string \<Rightarrow> string \<Rightarrow> carried" where
  "WithValue parent k v = (k, v) # parent"

definition Value :: "carried \<Rightarrow> string \<Rightarrow> string option" where
  "Value k key = map_of k key"

text \<open>
  The struct \<open>Context\<close>. The field \<open>cherry\<close>, a pointer back to the router that no method
  reads, is left out.
\<close>

record Context =
  Context :: carried
  response :: ResponseWriter
  request :: Request
  vars :: "(string \<times> string) list"

text \<open>
  A \<open>Handler\<close> receives the pointer to the request's \<open>Context\<close> and returns an error or
  nil: it is a function from the \<open>Context\<close> it finds to its result and the \<open>Context\<close> it
  leaves. An \<open>ErrorHandlerFunc\<close> returns nothing.
\<close>

type_synonym Handler = "Context \<Rightarrow> error option \<times> Context"

type_synonym ErrorHandlerFunc = "Context \<Rightarrow> error \<Rightarrow> Context"


section \<open>The router facade (Cherry)\<close>

text \<open>The default error handler of the package.\<close>

definition errorHandler :: ErrorHandlerFunc where
  "errorHandler ctx err =
     ctx\<lparr>response := http_Error (response ctx) err StatusInternalServerError\<rparr>"

text \<open>
  The struct \<open>Cherry\<close>. \<open>Output\<close> and \<open>router\<close> are references to objects outside the
  struct (an \<open>io.Writer\<close> and the httprouter, both shared by every copy of the struct);
  the functions that use them take them as arguments. The field \<open>context\<close> is
  \<open>stored\<close> here, nil being \<open>None\<close>.
\<close>

record Cherry =
  ErrorHandler :: ErrorHandlerFunc
  HasAccessLog :: bool
  HTTP2 :: bool
  middleware :: slice
  prefix :: string
  stored :: "carried option"

definition New :: Cherry where
  "New = \<lparr>ErrorHandler = errorHandler, HasAccessLog = False, HTTP2 = False,
           middleware = nil, prefix = [], stored = None\<rparr>"

definition BindContext :: "Cherry \<Rightarrow> carried \<Rightarrow> Cherry" where
  "BindContext c ctx = c\<lparr>stored := Some ctx\<rparr>"

definition SetErrorHandler :: "Cherry \<Rightarrow> ErrorHandlerFunc \<Rightarrow> Cherry" where
  "SetErrorHandler c h = c\<lparr>ErrorHandler := h\<rparr>"

text \<open>\<open>c.middleware = append(c.middleware, handlers...)\<close>\<close>

definition Use :: "Handler runtime \<Rightarrow> Cherry \<Rightarrow> Handler list \<Rightarrow> Handler runtime \<times> Cherry" where
  "Use rt c handlers =
     (case append_slice rt (middleware c) handlers of (rt', s) \<Rightarrow> (rt', c\<lparr>middleware := s\<rparr>))"

text \<open>
  \<open>Group\<close> copies the struct (\<open>g := &Group{*c}\<close>) and extends the prefix of the copy;
  \<open>Reset\<close> sets the slice of the copy to nil. A \<open>Group\<close> embeds a \<open>Cherry\<close> and nothing
  else, so it is a \<open>Cherry\<close> value of its own.
\<close>

definition Group :: "Cherry \<Rightarrow> string \<Rightarrow> Cherry" where
  "Group c p = c\<lparr>prefix := prefix c @ p\<rparr>"

definition Reset :: "Cherry \<Rightarrow> Cherry" where
  "Reset g = g\<lparr>middleware := nil\<rparr>"

text \<open>
  The loop over the middleware in \<open>makeHttpRouterHandle\<close>: each handler is called on
  the \<open>Context\<close> the previous one left, and the first error ends the loop.
\<close>

fun run_middleware :: "Handler list \<Rightarrow> Context \<Rightarrow> error option \<times> Context" where
  "run_middleware [] ctx = (None, ctx)"
| "run_middleware (handler # rest) ctx =
     (case handler ctx of
        (Some err, ctx') \<Rightarrow> (Some err, ctx')
      | (None, ctx') \<Rightarrow> run_middleware rest ctx')"

text \<open>
  The body of the closure after the \<open>Context\<close> is built:
  \<^verbatim>\<open>
  for _, handler := range c.middleware {
      if err := handler(ctx); err != nil { c.ErrorHandler(ctx, err); return }
  }
  if err := h(ctx); err != nil { c.ErrorHandler(ctx, err); return }
  \<close>
\<close>

definition chain :: "ErrorHandlerFunc \<Rightarrow> Handler list \<Rightarrow> Handler \<Rightarrow> Context \<Rightarrow> Context" where
  "chain eh ms h ctx =
     (case run_middleware ms ctx of
        (Some err, ctx') \<Rightarrow> eh ctx' err
      | (None, ctx') \<Rightarrow>
          (case h ctx' of
             (Some err, ctx'') \<Rightarrow> eh ctx'' err
           | (None, ctx'') \<Rightarrow> ctx''))"

text \<open>
  The first lines of the closure: the stored context is set to the background context
  if it is nil, and the \<open>Context\<close> of the request is built from it.
\<close>

definition lazy :: "Cherry \<Rightarrow> Cherry" where
  "lazy c = (if stored c = None then c\<lparr>stored := Some Background\<rparr> else c)"

definition newContext ::
  "Cherry \<Rightarrow> ResponseWriter \<Rightarrow> Request \<Rightarrow> (string \<times> string) list \<Rightarrow> Context" where
  "newContext c rw r params =
     \<lparr>Context = (case stored c of None \<Rightarrow> Background | Some k \<Rightarrow> k),
      response = rw, request = r, vars = params\<rparr>"

text \<open>
  The closure \<open>makeHttpRouterHandle\<close> returns, called by the router for a matched
  request. It holds the pointer \<open>c\<close>, so it reads the struct and the backing array as
  they are when the request arrives, and it returns the struct as it leaves it, with the
  \<open>Context\<close> at the end of the request.
\<close>

definition makeHttpRouterHandle ::
  "Handler runtime \<Rightarrow> Cherry \<Rightarrow> Handler \<Rightarrow> ResponseWriter \<Rightarrow> Request \<Rightarrow> (string \<times> string) list
     \<Rightarrow> Cherry \<times> Context" where
  "makeHttpRouterHandle rt c h rw r params =
     (let c' = lazy c;
          ctx = newContext c' rw r params
      in (c', chain (ErrorHandler c') (elems rt (middleware c')) h ctx))"

text \<open>
  What the properties of the chain speak of: the \<open>Context\<close> after a list of handlers has
  run in order, and whether all of them returned nil on the way.
\<close>

fun after :: "Handler list \<Rightarrow> Context \<Rightarrow> Context" where
  "after [] ctx = ctx"
| "after (m # ms) ctx = after ms (snd (m ctx))"

fun all_nil :: "Handler list \<Rightarrow> Context \<Rightarrow> bool" where
  "all_nil [] ctx = True"
| "all_nil (m # ms) ctx = (fst (m ctx) = None \<and> all_nil ms (snd (m ctx)))"

text \<open>
  Handlers for examples, in the manner of the package's tests: \<open>say\<close> writes its name
  to the response and returns nil, \<open>fail\<close> returns an error, \<open>attach\<close> replaces
  \<open>ctx.Context\<close> by a child with one more pair.
\<close>

definition say :: "string \<Rightarrow> Handler" where
  "say name ctx = (None, ctx\<lparr>response := fst (Write (response ctx) name)\<rparr>)"

definition fail :: "string \<Rightarrow> Handler" where
  "fail msg ctx = (Some msg, ctx)"

definition attach :: "string \<Rightarrow> string \<Rightarrow> Handler" where
  "attach k v ctx = (None, ctx\<lparr>Context := WithValue (Context ctx) k v\<rparr>)"

definition get :: Request where
  "get = \<lparr>Method = ''GET'', Host = ''127.0.0.1:3000'', RequestURI = ''/x'',
          Proto = ''HTTP/1.1'', User = None\<rparr>"

text \<open>
  A parent that registers three middleware one call at a time, a group made from it, one
  more middleware for the group, and then one more for the parent. Each pair is the
  runtime and the struct after the step.
\<close>

definition parent1 :: "Handler runtime \<times> Cherry" where
  "parent1 = Use go_runtime New [say ''a'']"

definition parent2 :: "Handler runtime \<times> Cherry" where
  "parent2 = Use (fst parent1) (snd parent1) [say ''b'']"

definition parent3 :: "Handler runtime \<times> Cherry" where
  "parent3 = Use (fst parent2) (snd parent2) [say ''d'']"

definition sub0 :: Cherry where
  "sub0 = Group (snd parent3) ''/sub''"

definition sub1 :: "Handler runtime \<times> Cherry" where
  "sub1 = Use (fst parent3) sub0 [say ''x'']"

definition parent4 :: "Handler runtime \<times> Cherry" where
  "parent4 = Use (fst sub1) (snd parent3) [say ''y'']"

text \<open>
  The same parent and group with the last two calls the other way round: first one more
  middleware for the parent, then one for the group.
\<close>

definition appY :: "Handler runtime \<times> Cherry" where
  "appY = Use (fst parent3) (snd parent3) [say ''y'']"

definition subX :: "Handler runtime \<times> Cherry" where
  "subX = Use (fst appY) sub0 [say ''x'']"

text \<open>
  A router whose second middleware refuses the request, and a \<open>Context\<close> for a POST
  request that has written nothing yet.
\<close>

definition failing :: "Handler runtime \<times> Cherry" where
  "failing = Use (fst parent1) (snd parent1) [fail ''access forbidden'', say ''b'']"




section \<open>Access log\<close>






text \<open>
  The router and the handlers it runs reach the writer they are given only through its
  methods, so what they do for a request is the list of calls they make on it. A call is
  carried out by the method of whichever writer is passed in: the plain one, or the
  logger.
\<close>

datatype call = HeaderSet string string | HeaderDel string | CallWriteHeader int | CallWrite string




text \<open>The number of bytes a call writes.\<close>

fun written :: "call \<Rightarrow> int" where
  "written (CallWrite p) = int (length p)"
| "written other = 0"


text \<open>Decimal printing: \<open>%d\<close> of \<open>fmt\<close>, and the zero-padded \<open>appendInt\<close> of \<open>time\<close>.\<close>

fun itoa_nat :: "nat \<Rightarrow> string" where
  "itoa_nat n =
     (if n < 10 then [''0123456789'' ! n]
      else itoa_nat (n div 10) @ [''0123456789'' ! (n mod 10)])"

declare itoa_nat.simps [simp del]

definition itoa :: "int \<Rightarrow> string" where
  "itoa i = (if i < 0 then ''-'' @ itoa_nat (nat (- i)) else itoa_nat (nat i))"

















section \<open>Starting the server (Cherry.serve)\<close>

text \<open>\<open>utils.Colorize\<close> and the two colours \<open>serve\<close> needs.\<close>

type_synonym Color = string

definition ColorRed :: Color where
  "ColorRed = [CHR 0x1B] @ ''[31m''"

definition ColorReset :: Color where
  "ColorReset = [CHR 0x1B] @ ''[0m''"

definition Colorize :: "Color \<Rightarrow> string \<Rightarrow> string" where
  "Colorize color message = color @ message @ ColorReset"

text \<open>
  The \<open>http.Server\<close> that \<open>newServer\<close> builds, with the timeouts in seconds; its handler
  is the \<open>Cherry\<close> itself.
\<close>

record http_Server =
  Addr :: string
  ReadTimeout :: nat
  WriteTimeout :: nat
  http2 :: bool

definition newServer :: "string \<Rightarrow> bool \<Rightarrow> http_Server" where
  "newServer addr enableHTTP2 =
     \<lparr>Addr = addr, ReadTimeout = 5, WriteTimeout = 10, http2 = enableHTTP2\<rparr>"

text \<open>
  The part of the operating system \<open>serve\<close> talks to: the path \<open>os.Executable\<close> returns
  (\<open>serve\<close> discards its error), \<open>filepath.Dir\<close>, and the error \<open>os.Chdir\<close> returns for a
  directory, \<open>None\<close> when the change succeeds.
\<close>

record os =
  Executable :: string
  Dir :: "string \<Rightarrow> string"
  Chdir :: "string \<Rightarrow> error option"

text \<open>
  What \<open>serve\<close> does to the world, in order: working directory changed, bytes printed
  to \<open>c.Output\<close>, and the blocking call that listens and serves.
\<close>

datatype effect =
    Chdir_to string
  | Fprint string
  | ListenAndServe http_Server
  | ListenAndServeTLS http_Server string string

text \<open>
  \<open>Cherry.serve\<close>. \<open>banner\<close> is the embedded file \<open>assets/banner.txt\<close>; \<open>listen\<close> gives
  the error the blocking call returns when the server stops.
\<close>

definition listening :: "string \<Rightarrow> string" where
  "listening addr = ''Cherry'' @ [CHR 0xF0, CHR 0x9F, CHR 0x8D, CHR 0x92]
     @ '' listening on 0.0.0.0:'' @ addr @ [CHR 0x0A]"

definition listeningTLS :: "string \<Rightarrow> string" where
  "listeningTLS addr = ''Cherry'' @ [CHR 0xF0, CHR 0x9F, CHR 0x8D, CHR 0x92]
     @ '' listening TLS on 0.0.0.0:'' @ addr @ [CHR 0x0A]"

definition serve ::
  "os \<Rightarrow> string \<Rightarrow> (effect \<Rightarrow> error option) \<Rightarrow> http_Server \<Rightarrow> string list
     \<Rightarrow> error option \<times> effect list" where
  "serve sys banner listen s files =
     (let packagePath = Executable sys;
          packageDir = Dir sys packagePath
      in case Chdir sys packageDir of
           Some err \<Rightarrow> (Some err, [])
         | None \<Rightarrow>
             let sofar = [Chdir_to packageDir, Fprint (Colorize ColorRed banner @ [CHR 0x0A])]
             in if length files = 0 then
                  (listen (ListenAndServe s),
                   sofar @ [Fprint (listening (Addr s)), ListenAndServe s])
                else if length files = 2 then
                  (listen (ListenAndServeTLS s (files ! 0) (files ! 1)),
                   sofar @ [Fprint (listeningTLS (Addr s)), ListenAndServeTLS s (files ! 0) (files ! 1)])
                else (Some ''invalid server configuration detected'', sofar))"

definition Serve ::
  "os \<Rightarrow> string \<Rightarrow> (effect \<Rightarrow> error option) \<Rightarrow> Cherry \<Rightarrow> int \<Rightarrow> error option \<times> effect list" where
  "Serve sys banner listen c port =
     serve sys banner listen (newServer ('':'' @ itoa port) (HTTP2 c)) []"

definition ServeTLS ::
  "os \<Rightarrow> string \<Rightarrow> (effect \<Rightarrow> error option) \<Rightarrow> Cherry \<Rightarrow> int \<Rightarrow> string \<Rightarrow> string
     \<Rightarrow> error option \<times> effect list" where
  "ServeTLS sys banner listen c port certFile keyFile =
     serve sys banner listen (newServer ('':'' @ itoa port) (HTTP2 c)) [certFile, keyFile]"

definition ServeCustom ::
  "os \<Rightarrow> string \<Rightarrow> (effect \<Rightarrow> error option) \<Rightarrow> http_Server \<Rightarrow> error option \<times> effect list" where
  "ServeCustom sys banner listen s = serve sys banner listen s []"

definition ServeCustomTLS ::
  "os \<Rightarrow> string \<Rightarrow> (effect \<Rightarrow> error option) \<Rightarrow> http_Server \<Rightarrow> string \<Rightarrow> string
     \<Rightarrow> error option \<times> effect list" where
  "ServeCustomTLS sys banner listen s certFile keyFile =
     serve sys banner listen s [certFile, keyFile]"

text \<open>The working directory of the process after a list of effects.\<close>

fun cwd_after :: "string \<Rightarrow> effect list \<Rightarrow> string" where
  "cwd_after cwd [] = cwd"
| "cwd_after cwd (Chdir_to dir # rest) = cwd_after dir rest"
| "cwd_after cwd (e # rest) = cwd_after cwd rest"

text \<open>An installation for examples: the binary lives in \<open>/opt/app\<close>.\<close>

definition dirOf :: "string \<Rightarrow> string" where
  "dirOf p = (if p = ''/opt/app/server'' then ''/opt/app'' else ''.'')"

definition installed :: os where
  "installed = \<lparr>Executable = ''/opt/app/server'', Dir = dirOf, Chdir = (\<lambda>d. None)\<rparr>"

definition removed :: os where
  "removed = \<lparr>Executable = ''/opt/app/server'', Dir = dirOf,
               Chdir = (\<lambda>d. Some ''chdir /opt/app: no such file or directory'')\<rparr>"

definition stopped :: "effect \<Rightarrow> error option" where
  "stopped e = Some ''server stopped gracefully''"

section \<open>Properties of the graceful server\<close>

lemma run_append: "run s (a @ b) = (case run s a of None \<Rightarrow> None | Some s' \<Rightarrow> run s' b)"
  by (induction a arbitrary: s) (auto split: option.splits)

lemma run_snoc: "run s (es @ [e]) = (case run s es of None \<Rightarrow> None | Some s' \<Rightarrow> fire s' e)"
  by (simp add: run_append split: option.splits)

lemma fire_wg: "fire s e = Some s' \<Longrightarrow> \<not> dead s' \<Longrightarrow> wg s' = wg s + counted e"
  apply (cases e)
  subgoal for st by (cases st) (auto simp: crash_def wg_Add_def dead_def split: if_splits)
        apply (auto simp: crash_def closeNotify_def dead_def select_errChan_def select_quit_def select_fquit_def wg_Wait_def split: if_splits list.splits)
  done

lemma fire_dead: "dead s \<Longrightarrow> fire s e = None"
  by (cases e) (auto simp: dead_def split: pc.splits)

lemma run_dead: "dead s \<Longrightarrow> run s es = Some s' \<Longrightarrow> es = []"
  by (cases es) (auto simp: fire_dead)

lemma run_wg: "run s es = Some s' \<Longrightarrow> \<not> dead s' \<Longrightarrow> wg s' = wg s + sum_list (map counted es)"
proof (induction es arbitrary: s)
  case Nil then show ?case by simp
next
  case (Cons e es)
  then obtain s1 where f: "fire s e = Some s1" and r: "run s1 es = Some s'"
    by (auto split: option.splits)
  have "\<not> dead s1" using r Cons.prems(2) run_dead by fastforce
  with f have "wg s1 = wg s + counted e" by (rule fire_wg)
  with Cons.IH[OF r Cons.prems(2)] show ?case by simp
qed

lemma fire_keepalive: "fire s e = Some s' \<Longrightarrow> \<not> KeepAlivesEnabled s \<Longrightarrow> \<not> KeepAlivesEnabled s'"
  apply (cases e)
  subgoal for st by (cases st) (auto simp: crash_def wg_Add_def split: if_splits)
        apply (auto simp: crash_def closeNotify_def select_errChan_def select_quit_def select_fquit_def wg_Wait_def split: if_splits list.splits)
  done

lemma fire_returned: "fire s e = Some s' \<Longrightarrow> at s = Returned r \<Longrightarrow> at s' = Returned r \<or> dead s'"
  apply (cases e)
  subgoal for st by (cases st) (auto simp: crash_def wg_Add_def dead_def split: if_splits)
        apply (auto simp: crash_def closeNotify_def dead_def split: if_splits)
  done


lemma fire_errChan_mem:
  "fire s e = Some s' \<Longrightarrow> g \<notin> set (errChan s) \<Longrightarrow> e \<noteq> ServeExit g \<Longrightarrow> g \<notin> set (errChan s')"
  apply (cases e)
  subgoal for st by (cases st) (auto simp: crash_def wg_Add_def split: if_splits)
        apply (auto simp: crash_def closeNotify_def select_errChan_def select_quit_def select_fquit_def wg_Wait_def split: if_splits list.splits)
  done

lemma fire_to_returned:
  "fire s e = Some s' \<Longrightarrow> at s' = Returned g \<Longrightarrow> at s \<noteq> Returned g \<Longrightarrow> g \<notin> set (errChan s) \<Longrightarrow>
   g \<noteq> ''server stopped: process killed'' \<Longrightarrow>
   e = WaitDone \<and> at s = Waiting \<and> wg s = 0"
  apply (cases e)
  subgoal for st by (cases st) (auto simp: crash_def wg_Add_def split: if_splits)
        apply (auto simp: crash_def closeNotify_def select_errChan_def select_quit_def select_fquit_def wg_Wait_def split: if_splits list.splits)
  done

lemma graceful_origin:
  "run s0 evs = Some s \<Longrightarrow> at s = Returned g \<Longrightarrow> at s0 \<noteq> Returned g \<Longrightarrow>
   g \<notin> set (errChan s0) \<Longrightarrow> ServeExit g \<notin> set evs \<Longrightarrow> g \<noteq> ''server stopped: process killed'' \<Longrightarrow>
   \<exists>pre post s1. evs = pre @ WaitDone # post \<and> run s0 pre = Some s1 \<and> at s1 = Waiting \<and> wg s1 = 0"
proof (induction evs arbitrary: s0)
  case Nil
  then show ?case by simp
next
  case (Cons e es)
  then obtain s1 where f: "fire s0 e = Some s1" and r: "run s1 es = Some s"
    by (auto split: option.splits)
  show ?case
  proof (cases "at s1 = Returned g")
    case True
    from fire_to_returned[OF f True Cons.prems(3) Cons.prems(4) Cons.prems(6)]
    have "e = WaitDone" "at s0 = Waiting" "wg s0 = 0" by auto
    then have "e # es = [] @ WaitDone # es \<and> run s0 [] = Some s0 \<and> at s0 = Waiting \<and> wg s0 = 0"
      by simp
    then show ?thesis by blast
  next
    case False
    have m: "g \<notin> set (errChan s1)"
      using fire_errChan_mem[OF f Cons.prems(4)] Cons.prems(5) by auto
    have n: "ServeExit g \<notin> set es" using Cons.prems(5) by simp
    from Cons.IH[OF r Cons.prems(2) False m n Cons.prems(6)]
    obtain pre post s2 where p: "es = pre @ WaitDone # post" "run s1 pre = Some s2" "at s2 = Waiting" "wg s2 = 0"
      by blast
    then have "e # es = (e # pre) @ WaitDone # post \<and> run s0 (e # pre) = Some s2 \<and> at s2 = Waiting \<and> wg s2 = 0"
      using f by simp
    then show ?thesis by blast
  qed
qed

lemma fire_waiting_keepalive:
  "fire s e = Some s' \<Longrightarrow> (at s = Waiting \<longrightarrow> \<not> KeepAlivesEnabled s) \<Longrightarrow> at s' = Waiting \<Longrightarrow> \<not> KeepAlivesEnabled s'"
  apply (cases e)
  subgoal for st by (cases st) (auto simp: crash_def wg_Add_def split: if_splits)
        apply (auto simp: crash_def closeNotify_def select_errChan_def select_quit_def select_fquit_def wg_Wait_def split: if_splits list.splits)
  done

lemma run_waiting_keepalive:
  "run s0 evs = Some s \<Longrightarrow> (at s0 = Waiting \<longrightarrow> \<not> KeepAlivesEnabled s0) \<Longrightarrow> at s = Waiting \<Longrightarrow> \<not> KeepAlivesEnabled s"
proof (induction evs arbitrary: s rule: rev_induct)
  case Nil
  then show ?case by simp
next
  case (snoc e es)
  then obtain s1 where r: "run s0 es = Some s1" and f: "fire s1 e = Some s"
    by (auto simp: run_snoc split: option.splits)
  have "at s1 = Waiting \<longrightarrow> \<not> KeepAlivesEnabled s1" using snoc.IH[OF r snoc.prems(2)] by blast
  then show ?case using fire_waiting_keepalive[OF f] snoc.prems(3) by blast
qed

lemma run_keepalive: "run s es = Some s' \<Longrightarrow> \<not> KeepAlivesEnabled s \<Longrightarrow> \<not> KeepAlivesEnabled s'"
  by (induction es arbitrary: s) (auto split: option.splits dest: fire_keepalive)

lemma run_returned: "run s es = Some s' \<Longrightarrow> at s = Returned r \<Longrightarrow> at s' = Returned r \<or> dead s'"
proof (induction es arbitrary: s)
  case Nil then show ?case by simp
next
  case (Cons e es)
  then obtain s1 where f: "fire s e = Some s1" and r: "run s1 es = Some s'"
    by (auto split: option.splits)
  from fire_returned[OF f Cons.prems(2)] show ?case
  proof
    assume "at s1 = Returned r" then show ?thesis using Cons.IH[OF r] by blast
  next
    assume "dead s1" then show ?thesis using run_dead[OF _ r] r by auto
  qed
qed

lemma fire_chans: "fire s e = Some s' \<Longrightarrow> fquit s = 0 \<Longrightarrow> quit s \<le> (if notifying s then 0 else 1) \<Longrightarrow>
   fquit s' = 0 \<and> quit s' \<le> (if notifying s' then 0 else 1)"
  apply (cases e)
  subgoal for st by (cases st) (auto simp: crash_def wg_Add_def split: if_splits)
        apply (auto simp: crash_def closeNotify_def select_errChan_def select_quit_def select_fquit_def wg_Wait_def subscribed_def split: if_splits list.splits)
  done

lemma run_chans: "run s es = Some s' \<Longrightarrow> fquit s = 0 \<Longrightarrow> quit s \<le> (if notifying s then 0 else 1) \<Longrightarrow>
   fquit s' = 0 \<and> quit s' \<le> (if notifying s' then 0 else 1)"
proof (induction es arbitrary: s)
  case Nil then show ?case by simp
next
  case (Cons e es)
  then obtain s1 where f: "fire s e = Some s1" and r: "run s1 es = Some s'"
    by (auto split: option.splits)
  from fire_chans[OF f Cons.prems(2) Cons.prems(3)] Cons.IH[OF r] show ?case by blast
qed

text \<open>
  Claim C1. The live-connection counter is the number of \<open>StateNew\<close> reports minus the
  number of \<open>StateClosed\<close> and \<open>StateHijacked\<close> reports. When the \<open>select\<close> takes the
  graceful-stop case, keep-alives are switched off and \<open>serve\<close> enters the wait; the wait
  is released exactly when the counter is zero, and only that release produces the
  result ``server stopped gracefully'': every run from a fresh server that ends with this
  result passed a state inside the wait with keep-alives off and a zero counter (given
  that \<open>Serve\<close> itself did not fail with the very same message, which \<open>serve\<close> would hand
  on unchanged). When the \<open>select\<close> takes the forced-stop case, the result
  ``server stopped: process killed'' is produced in that one step, whatever the counter
  is. The two stop channels never hold more than one value between them, and a result
  once returned is never replaced by another.
\<close>

theorem serve_stop_outcomes:
  "(run fresh evs = Some s \<and> \<not> dead s \<longrightarrow> wg s = sum_list (map counted evs))
 \<and> (at a = Selecting \<and> 0 < quit a \<longrightarrow>
       fire a SelectQuit = Some (a\<lparr>quit := quit a - 1, KeepAlivesEnabled := False, at := Waiting\<rparr>))
 \<and> (at b = Waiting \<longrightarrow>
       fire b WaitDone =
         (if wg b = 0 then Some (b\<lparr>at := Returned ''server stopped gracefully''\<rparr>) else None))
 \<and> (run fresh evs = Some s \<and> at s = Returned ''server stopped gracefully''
        \<and> ServeExit ''server stopped gracefully'' \<notin> set evs \<longrightarrow>
       \<not> KeepAlivesEnabled s \<and>
       (\<exists>pre post s1. evs = pre @ WaitDone # post \<and> run fresh pre = Some s1 \<and>
          at s1 = Waiting \<and> \<not> KeepAlivesEnabled s1 \<and> wg s1 = 0))
 \<and> (at c = Selecting \<and> 0 < fquit c \<longrightarrow>
       fire c SelectFquit =
         Some (c\<lparr>fquit := fquit c - 1, at := Returned ''server stopped: process killed''\<rparr>))
 \<and> (run fresh evs = Some s \<longrightarrow> quit s + fquit s \<le> 1)
 \<and> (run d evs' = Some d' \<and> at d = Returned r \<and> at d' = Returned r' \<longrightarrow> r' = r)"
proof -
  have c1: "run fresh evs = Some s \<and> \<not> dead s \<longrightarrow> wg s = sum_list (map counted evs)"
    using run_wg[of fresh evs s] by (simp add: fresh_def)
  have c2: "at a = Selecting \<and> 0 < quit a \<longrightarrow>
       fire a SelectQuit = Some (a\<lparr>quit := quit a - 1, KeepAlivesEnabled := False, at := Waiting\<rparr>)"
    by (simp add: select_quit_def)
  have c3: "at b = Waiting \<longrightarrow>
       fire b WaitDone =
         (if wg b = 0 then Some (b\<lparr>at := Returned ''server stopped gracefully''\<rparr>) else None)"
    by (simp add: wg_Wait_def)
  have c4: "run fresh evs = Some s \<and> at s = Returned ''server stopped gracefully''
        \<and> ServeExit ''server stopped gracefully'' \<notin> set evs \<longrightarrow>
       \<not> KeepAlivesEnabled s \<and>
       (\<exists>pre post s1. evs = pre @ WaitDone # post \<and> run fresh pre = Some s1 \<and>
          at s1 = Waiting \<and> \<not> KeepAlivesEnabled s1 \<and> wg s1 = 0)"
  proof
    assume a: "run fresh evs = Some s \<and> at s = Returned ''server stopped gracefully''
        \<and> ServeExit ''server stopped gracefully'' \<notin> set evs"
    have "at fresh \<noteq> Returned ''server stopped gracefully''"
         "''server stopped gracefully'' \<notin> set (errChan fresh)"
      by (simp_all add: fresh_def)
    with a graceful_origin[of fresh evs s "''server stopped gracefully''"]
    obtain pre post s1 where p: "evs = pre @ WaitDone # post" "run fresh pre = Some s1"
        "at s1 = Waiting" "wg s1 = 0"
      by auto
    have k: "\<not> KeepAlivesEnabled s1"
      using run_waiting_keepalive[OF p(2) _ p(3)] by (simp add: fresh_def)
    have "run s1 (WaitDone # post) = Some s"
      using a p(1) p(2) by (simp add: run_append)
    then have "\<not> KeepAlivesEnabled s" using k by (rule run_keepalive)
    with p k show "\<not> KeepAlivesEnabled s \<and>
       (\<exists>pre post s1. evs = pre @ WaitDone # post \<and> run fresh pre = Some s1 \<and>
          at s1 = Waiting \<and> \<not> KeepAlivesEnabled s1 \<and> wg s1 = 0)"
      by blast
  qed
  have c5: "at c = Selecting \<and> 0 < fquit c \<longrightarrow>
       fire c SelectFquit =
         Some (c\<lparr>fquit := fquit c - 1, at := Returned ''server stopped: process killed''\<rparr>)"
    by (simp add: select_fquit_def)
  have c6: "run fresh evs = Some s \<longrightarrow> quit s + fquit s \<le> 1"
  proof
    assume "run fresh evs = Some s"
    from run_chans[OF this] show "quit s + fquit s \<le> 1"
      by (simp add: fresh_def split: if_splits)
  qed
  have c7: "run d evs' = Some d' \<and> at d = Returned r \<and> at d' = Returned r' \<longrightarrow> r' = r"
  proof
    assume a: "run d evs' = Some d' \<and> at d = Returned r \<and> at d' = Returned r'"
    then have "at d' = Returned r \<or> dead d'" using run_returned by blast
    with a show "r' = r" by (auto simp: dead_def)
  qed
  show ?thesis
    by (rule conjI[OF c1 conjI[OF c2 conjI[OF c3 conjI[OF c4 conjI[OF c5 conjI[OF c6 c7]]]]]])
qed

theorem serve_stop_outcomes_witness:
  "run fresh demo = Some demo_end \<and> wg demo_end = 0 \<and> \<not> KeepAlivesEnabled demo_end
 \<and> at demo_end = Returned ''server stopped gracefully''
 \<and> (\<exists>pre post s1. demo = pre @ WaitDone # post \<and> run fresh pre = Some s1 \<and>
          at s1 = Waiting \<and> \<not> KeepAlivesEnabled s1 \<and> wg s1 = 0)
 \<and> fire (fresh\<lparr>wg := 2, quit := 1\<rparr>) SelectQuit
      = Some (fresh\<lparr>KeepAlivesEnabled := False, wg := 2, quit := 0, at := Waiting\<rparr>)
 \<and> fire (fresh\<lparr>KeepAlivesEnabled := False, wg := 2, at := Waiting\<rparr>) WaitDone = None
 \<and> fire (fresh\<lparr>KeepAlivesEnabled := False, at := Waiting\<rparr>) WaitDone
      = Some (fresh\<lparr>KeepAlivesEnabled := False, at := Returned ''server stopped gracefully''\<rparr>)
 \<and> fire (fresh\<lparr>wg := 2, fquit := 1\<rparr>) SelectFquit
      = Some (fresh\<lparr>wg := 2, fquit := 0, at := Returned ''server stopped: process killed''\<rparr>)
 \<and> quit demo_end + fquit demo_end \<le> 1
 \<and> run demo_end [Hook StateNew] = Some (demo_end\<lparr>wg := 1\<rparr>)
 \<and> at (demo_end\<lparr>wg := 1\<rparr>) = Returned ''server stopped gracefully''"
proof -
  let ?a = "fresh\<lparr>wg := 2, quit := 1\<rparr>"
  let ?b = "fresh\<lparr>KeepAlivesEnabled := False, wg := 2, at := Waiting\<rparr>"
  let ?bz = "fresh\<lparr>KeepAlivesEnabled := False, at := Waiting\<rparr>"
  let ?c = "fresh\<lparr>wg := 2, fquit := 1\<rparr>"
  have r: "run fresh demo = Some demo_end"
    by (simp add: demo_end_def demo_def fresh_def crash_def wg_Add_def closeNotify_def
        subscribed_def dead_def select_errChan_def select_quit_def wg_Wait_def useClosedConn_def)
  have h1: "run fresh demo = Some demo_end \<and> \<not> dead demo_end"
    using r by (simp add: demo_end_def dead_def fresh_def)
  have h4: "run fresh demo = Some demo_end \<and> at demo_end = Returned ''server stopped gracefully''
        \<and> ServeExit ''server stopped gracefully'' \<notin> set demo"
    using r by (simp add: demo_end_def demo_def fresh_def)
  have ha: "at ?a = Selecting \<and> 0 < quit ?a" by (simp add: fresh_def)
  have hb: "at ?b = Waiting" "at ?bz = Waiting" by (simp_all add: fresh_def)
  have hc: "at ?c = Selecting \<and> 0 < fquit ?c" by (simp add: fresh_def)
  have hd: "run demo_end [Hook StateNew] = Some (demo_end\<lparr>wg := 1\<rparr>)
      \<and> at demo_end = Returned ''server stopped gracefully''
      \<and> at (demo_end\<lparr>wg := 1\<rparr>) = Returned ''server stopped gracefully''"
    by (simp add: demo_end_def fresh_def dead_def crash_def wg_Add_def)
  note T = serve_stop_outcomes[where evs = demo and s = demo_end and a = ?a and c = ?c
      and d = demo_end and evs' = "[Hook StateNew]" and d' = "demo_end\<lparr>wg := 1\<rparr>"
      and r = "''server stopped gracefully''" and r' = "''server stopped gracefully''"]
  have "wg demo_end = sum_list (map counted demo)"
    using T[where b = ?b] h1 by blast
  then have w: "wg demo_end = 0" by (simp add: demo_def)
  have k: "\<not> KeepAlivesEnabled demo_end \<and>
       (\<exists>pre post s1. demo = pre @ WaitDone # post \<and> run fresh pre = Some s1 \<and>
          at s1 = Waiting \<and> \<not> KeepAlivesEnabled s1 \<and> wg s1 = 0)"
    using T[where b = ?b] h4 by blast
  have fa: "fire ?a SelectQuit = Some (?a\<lparr>quit := quit ?a - 1, KeepAlivesEnabled := False, at := Waiting\<rparr>)"
    using T[where b = ?b] ha by blast
  have fb: "fire ?b WaitDone =
         (if wg ?b = 0 then Some (?b\<lparr>at := Returned ''server stopped gracefully''\<rparr>) else None)"
    using T[where b = ?b] hb(1) by blast
  have fbz: "fire ?bz WaitDone =
         (if wg ?bz = 0 then Some (?bz\<lparr>at := Returned ''server stopped gracefully''\<rparr>) else None)"
    using T[where b = ?bz] hb(2) by blast
  have fc: "fire ?c SelectFquit =
         Some (?c\<lparr>fquit := fquit ?c - 1, at := Returned ''server stopped: process killed''\<rparr>)"
    using T[where b = ?b] hc by blast
  have q: "quit demo_end + fquit demo_end \<le> 1"
    using T[where b = ?b] r by blast
  have e: "at demo_end = Returned ''server stopped gracefully''" by (simp add: demo_end_def)
  have wb: "wg ?b \<noteq> 0" by (simp add: fresh_def)
  have fb': "fire ?b WaitDone = None" using fb wb by presburger
  have fa': "fire ?a SelectQuit = Some (fresh\<lparr>KeepAlivesEnabled := False, wg := 2, quit := 0, at := Waiting\<rparr>)"
    unfolding fa by (simp add: fresh_def)
  have fbz': "fire ?bz WaitDone = Some (fresh\<lparr>KeepAlivesEnabled := False, at := Returned ''server stopped gracefully''\<rparr>)"
    unfolding fbz by (simp add: fresh_def)
  have fc': "fire ?c SelectFquit = Some (fresh\<lparr>wg := 2, fquit := 0, at := Returned ''server stopped: process killed''\<rparr>)"
    unfolding fc by (simp add: fresh_def)
  show ?thesis
    using r w k e q fa' fb' fbz' fc' hd by blast
qed

text \<open>
  Claim C4. The switch of \<open>closeNotify\<close>: on SIGINT, SIGQUIT and SIGTERM the listener is
  closed and a value is sent on \<open>quit\<close>; on SIGKILL the listener is closed and a value is
  sent on \<open>fquit\<close>; on SIGUSR2 it panics with ``USR2 => not implemented'', which ends the
  process. (\<open>subscribed\<close> does not list SIGKILL, so the operating system never delivers
  it to the switch; the claim is about what the switch does with the signal it is given.)
\<close>

theorem closeNotify_signals:
  "closeNotify s SIGINT = Inr (s\<lparr>listenerClosed := True, quit := quit s + 1, notifying := False\<rparr>)
 \<and> closeNotify s SIGQUIT = Inr (s\<lparr>listenerClosed := True, quit := quit s + 1, notifying := False\<rparr>)
 \<and> closeNotify s SIGTERM = Inr (s\<lparr>listenerClosed := True, quit := quit s + 1, notifying := False\<rparr>)
 \<and> closeNotify s SIGKILL = Inr (s\<lparr>listenerClosed := True, fquit := fquit s + 1, notifying := False\<rparr>)
 \<and> closeNotify s SIGUSR2 = Inl ''USR2 => not implemented''
 \<and> at (crash s (closeNotify s SIGUSR2)) = Crashed ''USR2 => not implemented''
 \<and> dead (crash s (closeNotify s SIGUSR2))"
  by (simp add: closeNotify_def crash_def dead_def)

text \<open>
  Claim C5. When the \<open>select\<close> of \<open>serve\<close> receives the error \<open>Serve\<close> returned: if its
  message contains ``use of closed network connection'' the error is dropped and \<open>serve\<close>
  stays at the \<open>select\<close>, everything else unchanged; any other error is returned to the
  caller in that step.
\<close>

theorem serve_error_suppressed_or_fatal:
  "at s = Selecting \<and> errChan s = err # rest \<longrightarrow>
     (Contains err useClosedConn \<longrightarrow> fire s SelectErr = Some (s\<lparr>errChan := rest\<rparr>)) \<and>
     (\<not> Contains err useClosedConn \<longrightarrow> fire s SelectErr = Some (s\<lparr>errChan := rest, at := Returned err\<rparr>))"
  by (simp add: select_errChan_def)

theorem serve_error_suppressed_or_fatal_witness:
  "fire (fresh\<lparr>errChan := [''accept tcp [::]:3000: use of closed network connection'']\<rparr>) SelectErr
     = Some (fresh\<lparr>errChan := []\<rparr>)
 \<and> fire (fresh\<lparr>errChan := [''http: Server closed'']\<rparr>) SelectErr
     = Some (fresh\<lparr>errChan := [], at := Returned ''http: Server closed''\<rparr>)"
proof -
  let ?e1 = "''accept tcp [::]:3000: use of closed network connection''"
  let ?e2 = "''http: Server closed''"
  have 1: "Contains ?e1 useClosedConn"
    by (simp add: useClosedConn_def)
  have 2: "\<not> Contains ?e2 useClosedConn"
    by (simp add: useClosedConn_def)
  have 3: "at (fresh\<lparr>errChan := [?e1]\<rparr>) = Selecting \<and> errChan (fresh\<lparr>errChan := [?e1]\<rparr>) = ?e1 # []"
    by (simp add: fresh_def)
  have 4: "at (fresh\<lparr>errChan := [?e2]\<rparr>) = Selecting \<and> errChan (fresh\<lparr>errChan := [?e2]\<rparr>) = ?e2 # []"
    by (simp add: fresh_def)
  have "fire (fresh\<lparr>errChan := [?e1]\<rparr>) SelectErr = Some (fresh\<lparr>errChan := [?e1]\<rparr>\<lparr>errChan := []\<rparr>)"
    using serve_error_suppressed_or_fatal[of "fresh\<lparr>errChan := [?e1]\<rparr>" ?e1 "[]"] 1 3 by blast
  moreover have "fire (fresh\<lparr>errChan := [?e2]\<rparr>) SelectErr
      = Some (fresh\<lparr>errChan := [?e2]\<rparr>\<lparr>errChan := [], at := Returned ?e2\<rparr>)"
    using serve_error_suppressed_or_fatal[of "fresh\<lparr>errChan := [?e2]\<rparr>" ?e2 "[]"] 2 4 by blast
  ultimately show ?thesis by simp
qed
section \<open>Properties of the router facade\<close>

lemma run_middleware_all_nil: "all_nil ms ctx \<Longrightarrow> run_middleware ms ctx = (None, after ms ctx)"
  by (induction ms arbitrary: ctx) (auto split: prod.splits option.splits)

lemma run_middleware_first_error:
  "all_nil pre ctx \<Longrightarrow> m (after pre ctx) = (Some err, ctx') \<Longrightarrow>
   run_middleware (pre @ m # post) ctx = (Some err, ctx')"
  by (induction pre arbitrary: ctx) (auto split: prod.splits option.splits)

lemma first_error_exists:
  "\<not> all_nil ms ctx \<Longrightarrow>
   \<exists>pre m post err. ms = pre @ m # post \<and> all_nil pre ctx \<and> fst (m (after pre ctx)) = Some err"
proof (induction ms arbitrary: ctx)
  case Nil
  then show ?case by simp
next
  case (Cons a ms)
  show ?case
  proof (cases "fst (a ctx)")
    case None
    with Cons.prems have "\<not> all_nil ms (snd (a ctx))" by simp
    from Cons.IH[OF this] obtain pre m post err where
      p: "ms = pre @ m # post" "all_nil pre (snd (a ctx))" "fst (m (after pre (snd (a ctx)))) = Some err"
      by blast
    have "a # ms = (a # pre) @ m # post \<and> all_nil (a # pre) ctx \<and> fst (m (after (a # pre) ctx)) = Some err"
      using p None by simp
    then show ?thesis by blast
  next
    case (Some err)
    then have "a # ms = [] @ a # ms \<and> all_nil [] ctx \<and> fst (a (after [] ctx)) = Some err"
      by simp
    then show ?thesis by blast
  qed
qed

lemma chain_all_nil:
  "all_nil ms ctx \<Longrightarrow>
   chain eh ms h ctx = (case h (after ms ctx) of (Some err, ctx') \<Rightarrow> eh ctx' err | (None, ctx') \<Rightarrow> ctx')"
  by (simp add: chain_def run_middleware_all_nil)

lemma chain_first_error:
  "all_nil pre ctx \<Longrightarrow> m (after pre ctx) = (Some err, ctx') \<Longrightarrow>
   chain eh (pre @ m # post) h ctx = eh ctx' err"
  by (simp add: chain_def run_middleware_first_error)

lemma lazy_fields: "ErrorHandler (lazy c) = ErrorHandler c" "middleware (lazy c) = middleware c"
  by (simp_all add: lazy_def)

lemma append_slice_elems:
  "len s \<le> length (arrays rt (array s)) \<Longrightarrow>
   elems (fst (append_slice rt s xs)) (snd (append_slice rt s xs)) = elems rt s @ xs"
  by (auto simp: append_slice_def elems_def Let_def)

lemma Use_elems:
  "len (middleware c) \<le> length (arrays rt (array (middleware c))) \<Longrightarrow>
   elems (fst (Use rt c hs)) (middleware (snd (Use rt c hs))) = elems rt (middleware c) @ hs"
  using append_slice_elems[of "middleware c" rt hs]
  by (auto simp: Use_def split: prod.splits)


text \<open>
  What the closure does with the list it finds in the slice of its router value when the
  request arrives. If every handler of the list, called in the order of the list on the
  \<open>Context\<close> its predecessor left, returns nil, the terminal handler is called on the
  \<open>Context\<close> the last one left, and the error handler is called on its error if it
  returns one. If the list is \<open>pre @ m # post\<close>, all of \<open>pre\<close> return nil and \<open>m\<close>
  returns an error, the outcome is the error handler applied once, to the \<open>Context\<close> \<open>m\<close>
  left and that error: neither \<open>post\<close> nor the terminal handler has any part in it. One
  of the two cases always applies. A single \<open>Use\<close> on a well-formed slice shows the new
  handlers behind the ones already there.
\<close>

lemma dispatch_follows_list:
  "(all_nil (elems rt (middleware c)) (newContext (lazy c) rw r params) \<longrightarrow>
      snd (makeHttpRouterHandle rt c h rw r params) =
        (case h (after (elems rt (middleware c)) (newContext (lazy c) rw r params)) of
           (Some err, ctx') \<Rightarrow> ErrorHandler c ctx' err
         | (None, ctx') \<Rightarrow> ctx'))
 \<and> (elems rt (middleware c) = pre @ m # post \<and> all_nil pre (newContext (lazy c) rw r params) \<and>
      m (after pre (newContext (lazy c) rw r params)) = (Some err, ctx') \<longrightarrow>
      snd (makeHttpRouterHandle rt c h rw r params) = ErrorHandler c ctx' err)
 \<and> (\<not> all_nil (elems rt (middleware c)) (newContext (lazy c) rw r params) \<longrightarrow>
      (\<exists>pre m post err. elems rt (middleware c) = pre @ m # post \<and>
         all_nil pre (newContext (lazy c) rw r params) \<and>
         fst (m (after pre (newContext (lazy c) rw r params))) = Some err))
 \<and> (len (middleware c) \<le> length (arrays rt (array (middleware c))) \<longrightarrow>
      elems (fst (Use rt c hs)) (middleware (snd (Use rt c hs))) = elems rt (middleware c) @ hs)"
proof -
  let ?ms = "elems rt (middleware c)" and ?ctx = "newContext (lazy c) rw r params"
  have a: "all_nil ?ms ?ctx \<longrightarrow>
      snd (makeHttpRouterHandle rt c h rw r params) =
        (case h (after ?ms ?ctx) of (Some err, ctx') \<Rightarrow> ErrorHandler c ctx' err | (None, ctx') \<Rightarrow> ctx')"
    by (simp add: makeHttpRouterHandle_def Let_def lazy_fields chain_all_nil)
  have b: "?ms = pre @ m # post \<and> all_nil pre ?ctx \<and> m (after pre ?ctx) = (Some err, ctx') \<longrightarrow>
      snd (makeHttpRouterHandle rt c h rw r params) = ErrorHandler c ctx' err"
    by (simp add: makeHttpRouterHandle_def Let_def lazy_fields chain_first_error)
  have c: "\<not> all_nil ?ms ?ctx \<longrightarrow>
      (\<exists>pre m post err. ?ms = pre @ m # post \<and> all_nil pre ?ctx \<and> fst (m (after pre ?ctx)) = Some err)"
    using first_error_exists[of ?ms ?ctx] by blast
  have d: "len (middleware c) \<le> length (arrays rt (array (middleware c))) \<longrightarrow>
      elems (fst (Use rt c hs)) (middleware (snd (Use rt c hs))) = elems rt (middleware c) @ hs"
    using Use_elems[of c rt hs] by blast
  show ?thesis by (rule conjI[OF a conjI[OF b conjI[OF c d]]])
qed

lemmas runtime_eval = Use_def append_slice_def go_runtime_def go_growcap_def roundupsize_def
  size_classes_def New_def nil_def elems_def Group_def Reset_def Let_def

lemma parent3_elems: "elems (fst parent3) (middleware (snd parent3)) = [say ''a'', say ''b'', say ''d'']"
  by (simp add: parent3_def parent2_def parent1_def runtime_eval)

lemma sub1_before: "elems (fst sub1) (middleware (snd sub1)) = [say ''a'', say ''b'', say ''d'', say ''x'']"
  by (simp add: sub1_def sub0_def parent3_def parent2_def parent1_def runtime_eval)

lemma sub1_after: "elems (fst parent4) (middleware (snd sub1)) = [say ''a'', say ''b'', say ''d'', say ''y'']"
  by (simp add: parent4_def sub1_def sub0_def parent3_def parent2_def parent1_def runtime_eval)


lemma failing_elems:
  "elems (fst failing) (middleware (snd failing)) = [say ''a''] @ fail ''access forbidden'' # [say ''b'']"
  by (simp add: failing_def parent1_def runtime_eval)

lemma failing_fields: "ErrorHandler (snd failing) = errorHandler" "stored (snd failing) = None"
  by (simp_all add: failing_def parent1_def runtime_eval)

lemma parent3_fields: "ErrorHandler (snd parent3) = errorHandler" "stored (snd parent3) = None"
  by (simp_all add: parent3_def parent2_def parent1_def runtime_eval)


lemma appY_elems: "elems (fst appY) (middleware (snd appY)) = [say ''a'', say ''b'', say ''d'', say ''y'']"
  by (simp add: appY_def parent3_def parent2_def parent1_def runtime_eval)

lemma appY_after: "elems (fst subX) (middleware (snd appY)) = [say ''a'', say ''b'', say ''d'', say ''x'']"
  by (simp add: subX_def appY_def sub0_def parent3_def parent2_def parent1_def runtime_eval)

lemma appY_fields: "ErrorHandler (snd appY) = errorHandler" "stored (snd appY) = None"
  by (simp_all add: appY_def parent3_def parent2_def parent1_def runtime_eval)

lemmas say_eval = makeHttpRouterHandle_def Let_def lazy_fields chain_def say_def Write_def
  newContext_def emptyWriter_def lazy_def

text \<open>
  Claim C2, at the input where the code departs from it. The application registers a, b
  and d with three single \<open>Use\<close> calls, a group is made, and the application registers
  y: its slice shows a, b, d, y, and a request to a route of the application runs them
  in this order and then the terminal handler. Then the group registers x. The group's
  copy of the slice header still has length 3 and capacity 4 and points to the same
  backing array, so x is written over y: the struct of the application has not changed,
  yet a request to its route now runs a, b, d, x and then the terminal handler. The
  middleware y, registered on the application, has not run and has returned nothing;
  x, never registered on the application, has run in its place. This is the defect of
  claim C3, seen from the parent.
\<close>

theorem application_middleware_overwritten:
  "len (middleware (snd appY)) = 4 \<and> cap (middleware (snd appY)) = 4
 \<and> len (middleware sub0) = 3 \<and> cap (middleware sub0) = 4
 \<and> array (middleware sub0) = array (middleware (snd appY))
 \<and> body (response (snd (makeHttpRouterHandle (fst appY) (snd appY) (say ''h'') emptyWriter get [])))
      = ''abdyh''
 \<and> body (response (snd (makeHttpRouterHandle (fst subX) (snd appY) (say ''h'') emptyWriter get [])))
      = ''abdxh''"
proof -
  have 1: "len (middleware (snd appY)) = 4 \<and> cap (middleware (snd appY)) = 4
      \<and> len (middleware sub0) = 3 \<and> cap (middleware sub0) = 4
      \<and> array (middleware sub0) = array (middleware (snd appY))"
    by (simp add: appY_def sub0_def parent3_def parent2_def parent1_def runtime_eval)
  have 2: "body (response (snd (makeHttpRouterHandle (fst appY) (snd appY) (say ''h'') emptyWriter get []))) = ''abdyh''"
    by (simp add: say_eval appY_elems appY_fields)
  have 3: "body (response (snd (makeHttpRouterHandle (fst subX) (snd appY) (say ''h'') emptyWriter get []))) = ''abdxh''"
    by (simp add: say_eval appY_after appY_fields)
  show ?thesis using 1 2 3 by blast
qed

text \<open>
  Claim C3, at the input where the code departs from it. \<open>Reset\<close> on the group does
  empty the group's list and leaves the parent's. But after three single \<open>Use\<close> calls
  the parent's slice has length 3 and capacity 4. The group made then shares the backing
  array; its own \<open>Use\<close> writes \<open>x\<close> into the free fourth place, and a request to the group
  runs a, b, d, x. The parent's next \<open>Use\<close> appends from length 3 into the same place:
  the struct of the group has not changed, yet a request to the group now runs
  a, b, d, y, the middleware registered on the parent after the group was made.
\<close>

theorem group_middleware_overwritten:
  "elems (fst parent3) (middleware (Reset sub0)) = []
 \<and> elems (fst parent3) (middleware (snd parent3)) = [say ''a'', say ''b'', say ''d'']
 \<and> cap (middleware (snd parent3)) = 4 \<and> len (middleware (snd parent3)) = 3
 \<and> array (middleware (snd sub1)) = array (middleware (snd parent4))
 \<and> body (response (snd (makeHttpRouterHandle (fst sub1) (snd sub1) (say ''h'') emptyWriter get [])))
      = ''abdxh''
 \<and> body (response (snd (makeHttpRouterHandle (fst parent4) (snd sub1) (say ''h'') emptyWriter get [])))
      = ''abdyh''
 \<and> body (response (snd (makeHttpRouterHandle (fst parent4) (snd parent4) (say ''h'') emptyWriter get [])))
      = ''abdyh''"
proof -
  have 1: "cap (middleware (snd parent3)) = 4 \<and> len (middleware (snd parent3)) = 3"
    by (simp add: parent3_def parent2_def parent1_def runtime_eval)
  have 2: "array (middleware (snd sub1)) = array (middleware (snd parent4))"
    by (simp add: parent4_def sub1_def sub0_def parent3_def parent2_def parent1_def runtime_eval)
  have p4: "elems (fst parent4) (middleware (snd parent4)) = [say ''a'', say ''b'', say ''d'', say ''y'']"
    by (simp add: parent4_def sub1_def sub0_def parent3_def parent2_def parent1_def runtime_eval)
  have e: "ErrorHandler (snd sub1) = errorHandler" "ErrorHandler (snd parent4) = errorHandler"
          "stored (snd sub1) = None" "stored (snd parent4) = None"
    by (simp_all add: parent4_def sub1_def sub0_def parent3_def parent2_def parent1_def runtime_eval)
  have 3: "body (response (snd (makeHttpRouterHandle (fst sub1) (snd sub1) (say ''h'') emptyWriter get []))) = ''abdxh''"
    by (simp add: makeHttpRouterHandle_def Let_def lazy_fields sub1_before e chain_def say_def
        Write_def newContext_def emptyWriter_def lazy_def)
  have 4: "body (response (snd (makeHttpRouterHandle (fst parent4) (snd sub1) (say ''h'') emptyWriter get []))) = ''abdyh''"
    by (simp add: makeHttpRouterHandle_def Let_def lazy_fields sub1_after e chain_def say_def
        Write_def newContext_def emptyWriter_def lazy_def)
  have 5: "body (response (snd (makeHttpRouterHandle (fst parent4) (snd parent4) (say ''h'') emptyWriter get []))) = ''abdyh''"
    by (simp add: makeHttpRouterHandle_def Let_def lazy_fields p4 e chain_def say_def
        Write_def newContext_def emptyWriter_def lazy_def)
  have 0: "elems (fst parent3) (middleware (Reset sub0)) = []"
    by (simp add: Reset_def nil_def elems_def)
  show ?thesis using 0 parent3_elems 1 2 3 4 5 by blast
qed

lemma HasPrefix_append: "HasPrefix (b @ c) b"
  by (induction b) auto

lemma HasPrefix_Contains: "HasPrefix s sub \<Longrightarrow> Contains s sub"
  by (cases s; cases sub) auto

lemma Contains_append_left: "Contains s sub \<Longrightarrow> Contains (a @ s) sub"
  by (induction a) auto

lemma Contains_middle: "Contains (a @ b @ c) b"
  by (intro Contains_append_left HasPrefix_Contains HasPrefix_append)

lemma map_of_Header_Set: "map_of (Header_Set h k v) k' = (if k' = k then Some v else map_of h k')"
  by (induction h) (auto simp: Header_Set_def Header_Del_def)

lemma Header_Get_Set: "Header_Get (Header_Set h k v) k' = (if k' = k then v else Header_Get h k')"
  by (simp add: Header_Get_def map_of_Header_Set)


text \<open>
  Claim C7, as the code has it. The error handler \<open>New\<close> installs is \<open>errorHandler\<close>. It
  passes 500 to \<open>WriteHeader\<close>, sets the content type to plain text in the header map and
  writes the error's message followed by a newline, so the body contains the message. If
  nothing of the response had been written before, the response is sent with status 500
  and the plain-text content type; if something had, its status and headers stay as they
  were sent. For a router value that still has this handler, a request whose middleware
  or terminal handler returns an error ends with \<open>errorHandler\<close> applied to the \<open>Context\<close>
  that handler left.
\<close>

theorem errorHandler_writes_500:
  "ErrorHandler New = errorHandler
 \<and> codes (response (errorHandler ctx err)) = codes (response ctx) @ [500]
 \<and> body (response (errorHandler ctx err)) = body (response ctx) @ err @ [CHR 0x0A]
 \<and> Contains (body (response (errorHandler ctx err))) err
 \<and> Header_Get (header (response (errorHandler ctx err))) ''Content-Type'' = ''text/plain; charset=utf-8''
 \<and> (sent (response ctx) = None \<longrightarrow>
      (\<exists>h. sent (response (errorHandler ctx err)) = Some (500, h) \<and>
           Header_Get h ''Content-Type'' = ''text/plain; charset=utf-8''))
 \<and> (sent (response ctx) \<noteq> None \<longrightarrow>
      sent (response (errorHandler ctx err)) = sent (response ctx))
 \<and> (ErrorHandler c = errorHandler \<and> elems rt (middleware c) = pre @ m # post \<and>
      all_nil pre (newContext (lazy c) rw r params) \<and>
      m (after pre (newContext (lazy c) rw r params)) = (Some err, ctx) \<longrightarrow>
      snd (makeHttpRouterHandle rt c h rw r params) = errorHandler ctx err)
 \<and> (ErrorHandler c = errorHandler \<and> all_nil (elems rt (middleware c)) (newContext (lazy c) rw r params) \<and>
      h (after (elems rt (middleware c)) (newContext (lazy c) rw r params)) = (Some err, ctx) \<longrightarrow>
      snd (makeHttpRouterHandle rt c h rw r params) = errorHandler ctx err)"
proof -
  have b: "body (response (errorHandler ctx err)) = body (response ctx) @ err @ [CHR 0x0A]"
    by (simp add: errorHandler_def http_Error_def Let_def Write_def WriteHeader_def)
  have 1: "ErrorHandler New = errorHandler" by (simp add: New_def)
  have 2: "codes (response (errorHandler ctx err)) = codes (response ctx) @ [500]"
    by (simp add: errorHandler_def http_Error_def Let_def Write_def WriteHeader_def StatusInternalServerError_def)
  have 3: "Contains (body (response (errorHandler ctx err))) err"
    unfolding b by (rule Contains_middle)
  have 4: "Header_Get (header (response (errorHandler ctx err))) ''Content-Type'' = ''text/plain; charset=utf-8''"
    by (simp add: errorHandler_def http_Error_def Let_def Write_def WriteHeader_def Header_Get_Set)
  have 5: "sent (response ctx) = None \<longrightarrow>
      (\<exists>h. sent (response (errorHandler ctx err)) = Some (500, h) \<and>
           Header_Get h ''Content-Type'' = ''text/plain; charset=utf-8'')"
    by (simp add: errorHandler_def http_Error_def Let_def Write_def WriteHeader_def Header_Get_Set
        StatusInternalServerError_def)
  have 6: "sent (response ctx) \<noteq> None \<longrightarrow>
      sent (response (errorHandler ctx err)) = sent (response ctx)"
    by (auto simp: errorHandler_def http_Error_def Let_def Write_def WriteHeader_def)
  have 7: "ErrorHandler c = errorHandler \<and> elems rt (middleware c) = pre @ m # post \<and>
      all_nil pre (newContext (lazy c) rw r params) \<and>
      m (after pre (newContext (lazy c) rw r params)) = (Some err, ctx) \<longrightarrow>
      snd (makeHttpRouterHandle rt c h rw r params) = errorHandler ctx err"
    by (simp add: makeHttpRouterHandle_def Let_def lazy_fields chain_first_error)
  have 8: "ErrorHandler c = errorHandler \<and> all_nil (elems rt (middleware c)) (newContext (lazy c) rw r params) \<and>
      h (after (elems rt (middleware c)) (newContext (lazy c) rw r params)) = (Some err, ctx) \<longrightarrow>
      snd (makeHttpRouterHandle rt c h rw r params) = errorHandler ctx err"
    by (simp add: makeHttpRouterHandle_def Let_def lazy_fields chain_all_nil)
  show ?thesis
    by (rule conjI[OF 1 conjI[OF 2 conjI[OF b conjI[OF 3 conjI[OF 4 conjI[OF 5 conjI[OF 6
          conjI[OF 7 8]]]]]]]])
qed

lemma failing_response:
  "response (snd (makeHttpRouterHandle (fst failing) (snd failing) (say ''h'') emptyWriter get []))
     = \<lparr>header = [(''X-Content-Type-Options'', ''nosniff''),
                  (''Content-Type'', ''text/plain; charset=utf-8'')],
        codes = [500], sent = Some (200, []), body = ''aaccess forbidden'' @ [CHR 0x0A]\<rparr>"
  by (simp add: makeHttpRouterHandle_def Let_def lazy_fields failing_elems failing_fields chain_def
      say_def fail_def Write_def WriteHeader_def newContext_def emptyWriter_def lazy_def
      errorHandler_def http_Error_def StatusInternalServerError_def StatusOK_def
      Header_Set_def Header_Del_def)

theorem errorHandler_writes_500_witness:
  "response (snd (makeHttpRouterHandle go_runtime New (fail ''boom'') emptyWriter get []))
     = \<lparr>header = [(''X-Content-Type-Options'', ''nosniff''),
                  (''Content-Type'', ''text/plain; charset=utf-8'')],
        codes = [500],
        sent = Some (500, [(''X-Content-Type-Options'', ''nosniff''),
                           (''Content-Type'', ''text/plain; charset=utf-8'')]),
        body = ''boom'' @ [CHR 0x0A]\<rparr>
 \<and> (\<exists>h. sent (response (errorHandler (newContext (lazy New) emptyWriter get []) ''boom''))
          = Some (500, h) \<and> Header_Get h ''Content-Type'' = ''text/plain; charset=utf-8'')
 \<and> snd (makeHttpRouterHandle (fst failing) (snd failing) (say ''h'') emptyWriter get [])
     = errorHandler (after [say ''a''] (newContext (lazy (snd failing)) emptyWriter get []))
         ''access forbidden''
 \<and> sent (response (errorHandler (after [say ''a''] (newContext (lazy (snd failing)) emptyWriter get []))
         ''access forbidden''))
     = Some (200, [])"
proof -
  let ?ctxn = "newContext (lazy New) emptyWriter get []"
  let ?ctxf = "newContext (lazy (snd failing)) emptyWriter get []"
  have t: "ErrorHandler New = errorHandler
      \<and> all_nil (elems go_runtime (middleware New)) ?ctxn
      \<and> fail ''boom'' (after (elems go_runtime (middleware New)) ?ctxn) = (Some ''boom'', ?ctxn)"
    by (simp add: New_def nil_def elems_def fail_def)
  have rt: "snd (makeHttpRouterHandle go_runtime New (fail ''boom'') emptyWriter get []) =
        errorHandler ?ctxn ''boom''"
    using errorHandler_writes_500[where rt = go_runtime and c = New and rw = emptyWriter
        and r = get and params = "[]" and h = "fail ''boom''" and err = "''boom''"
        and ctx = ?ctxn] t by blast
  have fresh: "sent (response ?ctxn) = None"
    by (simp add: newContext_def emptyWriter_def)
  have s5: "\<exists>h. sent (response (errorHandler ?ctxn ''boom'')) = Some (500, h) \<and>
      Header_Get h ''Content-Type'' = ''text/plain; charset=utf-8''"
    using errorHandler_writes_500[where ctx = ?ctxn and err = "''boom''"] fresh by blast
  have b: "ErrorHandler (snd failing) = errorHandler
      \<and> elems (fst failing) (middleware (snd failing)) = [say ''a''] @ fail ''access forbidden'' # [say ''b'']
      \<and> all_nil [say ''a''] ?ctxf
      \<and> fail ''access forbidden'' (after [say ''a''] ?ctxf) = (Some ''access forbidden'', after [say ''a''] ?ctxf)"
    by (simp add: failing_elems failing_fields say_def fail_def)
  have r: "snd (makeHttpRouterHandle (fst failing) (snd failing) (say ''h'') emptyWriter get []) =
        errorHandler (after [say ''a''] ?ctxf) ''access forbidden''"
    using errorHandler_writes_500[where rt = "fst failing" and c = "snd failing" and rw = emptyWriter
        and r = get and params = "[]" and h = "say ''h''" and pre = "[say ''a'']"
        and m = "fail ''access forbidden''" and post = "[say ''b'']" and err = "''access forbidden''"
        and ctx = "after [say ''a''] ?ctxf"] b by blast
  have written: "sent (response (after [say ''a''] ?ctxf)) = Some (200, [])"
    by (simp add: say_def Write_def newContext_def emptyWriter_def StatusOK_def)
  have s6: "sent (response (errorHandler (after [say ''a''] ?ctxf) ''access forbidden''))
      = sent (response (after [say ''a''] ?ctxf))"
    using errorHandler_writes_500[where ctx = "after [say ''a''] ?ctxf"
        and err = "''access forbidden''"] written by simp
  have v: "response (errorHandler ?ctxn ''boom'')
     = \<lparr>header = [(''X-Content-Type-Options'', ''nosniff''),
                  (''Content-Type'', ''text/plain; charset=utf-8'')],
        codes = [500],
        sent = Some (500, [(''X-Content-Type-Options'', ''nosniff''),
                           (''Content-Type'', ''text/plain; charset=utf-8'')]),
        body = ''boom'' @ [CHR 0x0A]\<rparr>"
    by (simp add: Write_def WriteHeader_def New_def newContext_def emptyWriter_def lazy_def
        errorHandler_def http_Error_def Let_def StatusInternalServerError_def Header_Set_def Header_Del_def)
  show ?thesis
    unfolding rt using v s5 r s6 written by simp
qed

text \<open>
  Claim C7 as stated fails for a request that has written before it fails. Here the
  first middleware writes one byte, which sends the response with status 200 and the
  headers of that moment, and the second returns an error: the default error handler
  passes 500 to \<open>WriteHeader\<close> and writes the message, but the response keeps status 200
  and goes out without the plain-text content type.
\<close>

theorem error_after_write_keeps_200:
  "sent (response (snd (makeHttpRouterHandle (fst failing) (snd failing) (say ''h'') emptyWriter get [])))
     = Some (200, [])
 \<and> codes (response (snd (makeHttpRouterHandle (fst failing) (snd failing) (say ''h'') emptyWriter get [])))
     = [500]
 \<and> body (response (snd (makeHttpRouterHandle (fst failing) (snd failing) (say ''h'') emptyWriter get [])))
     = ''aaccess forbidden'' @ [CHR 0x0A]"
  by (simp add: failing_response)



text \<open>
  Claim C10, as the code has it. The closure runs the chain on the \<open>Context\<close> built from
  the stored context of the router value it belongs to, the background context if none
  is stored, and leaves that value with exactly this context stored, whatever the
  handlers did to the \<open>Context\<close> of the request; the next request on the same value starts
  from the same carried context. A \<open>Group\<close> takes its own copy of the stored context when
  it is made, and \<open>BindContext\<close> sets the one of the value it is called on.
\<close>

theorem request_context_from_stored:
  "snd (makeHttpRouterHandle rt c h rw r params) =
     chain (ErrorHandler c) (elems rt (middleware c)) h (newContext (lazy c) rw r params)
 \<and> Context (newContext (lazy c) rw r params) = (case stored c of None \<Rightarrow> Background | Some k \<Rightarrow> k)
 \<and> fst (makeHttpRouterHandle rt c h rw r params) = lazy c
 \<and> stored (lazy c) = Some (case stored c of None \<Rightarrow> Background | Some k \<Rightarrow> k)
 \<and> Context (newContext (lazy (fst (makeHttpRouterHandle rt c h rw r params))) rw' r' params')
      = Context (newContext (lazy c) rw r params)
 \<and> stored (Group c p) = stored c
 \<and> stored (BindContext c k) = Some k"
  by (simp add: makeHttpRouterHandle_def Let_def lazy_fields newContext_def lazy_def Group_def
      BindContext_def split: option.splits)


theorem request_context_from_stored_witness:
  "Value (Context (snd (makeHttpRouterHandle go_runtime (BindContext New [(''a'', ''b'')])
       (attach ''user'' ''frank'') emptyWriter get []))) ''user'' = Some ''frank''
 \<and> Context (newContext (lazy (fst (makeHttpRouterHandle go_runtime (BindContext New [(''a'', ''b'')])
       (attach ''user'' ''frank'') emptyWriter get []))) emptyWriter get []) = [(''a'', ''b'')]"
proof -
  note T = request_context_from_stored[where rt = go_runtime and c = "BindContext New [(''a'', ''b'')]"
      and h = "attach ''user'' ''frank''" and rw = emptyWriter and r = get and params = "[]"
      and rw' = emptyWriter and r' = get and params' = "[]"]
  have 1: "snd (makeHttpRouterHandle go_runtime (BindContext New [(''a'', ''b'')])
       (attach ''user'' ''frank'') emptyWriter get []) =
     chain (ErrorHandler (BindContext New [(''a'', ''b'')]))
       (elems go_runtime (middleware (BindContext New [(''a'', ''b'')]))) (attach ''user'' ''frank'')
       (newContext (lazy (BindContext New [(''a'', ''b'')])) emptyWriter get [])"
    using T by blast
  have 2: "Context (newContext (lazy (fst (makeHttpRouterHandle go_runtime (BindContext New [(''a'', ''b'')])
       (attach ''user'' ''frank'') emptyWriter get []))) emptyWriter get [])
      = Context (newContext (lazy (BindContext New [(''a'', ''b'')])) emptyWriter get [])"
    using T by blast
  show ?thesis
    unfolding 1 2
    by (simp add: BindContext_def New_def nil_def elems_def go_runtime_def chain_def attach_def
        WithValue_def Value_def newContext_def lazy_def)
qed


text \<open>
  Claim C10 as stated fails for a group: the group below was made before the
  application bound its context, so a request to the application's own route carries the
  pair bound there, while a request to the group's route starts from the background
  context and does not see it.
\<close>

theorem group_request_not_from_application_context:
  "Value (Context (newContext (lazy (BindContext New [(''a'', ''b'')])) emptyWriter get [])) ''a'' = Some ''b''
 \<and> Value (Context (newContext (lazy (Group New ''/foo'')) emptyWriter get [])) ''a'' = None
 \<and> stored (BindContext New [(''a'', ''b'')]) \<noteq> stored (lazy (Group New ''/foo''))"
  by (simp add: BindContext_def New_def Group_def newContext_def lazy_def Value_def Background_def)

section \<open>Properties of the access log and of starting the server\<close>

























text \<open>
  Claim C9. \<open>serve\<close> first changes the working directory to the directory of the path
  \<open>os.Executable\<close> returned. If that fails it returns the error and has done nothing
  else: nothing is printed and no listener is started. If it succeeds, the change is the
  first effect, the banner is printed after it, and the working directory of the process
  is that directory from then on. \<open>Serve\<close>, \<open>ServeTLS\<close>, \<open>ServeCustom\<close> and
  \<open>ServeCustomTLS\<close> are calls of \<open>serve\<close>.
\<close>

theorem serve_changes_directory_first:
  "(Chdir sys (Dir sys (Executable sys)) = Some err \<longrightarrow>
      serve sys banner listen s files = (Some err, []))
 \<and> (Chdir sys (Dir sys (Executable sys)) = None \<longrightarrow>
      (\<exists>rest. snd (serve sys banner listen s files) =
          Chdir_to (Dir sys (Executable sys)) # Fprint (Colorize ColorRed banner @ [CHR 0x0A]) # rest)
      \<and> cwd_after cwd (snd (serve sys banner listen s files)) = Dir sys (Executable sys))
 \<and> Serve sys banner listen c port
      = serve sys banner listen (newServer ('':'' @ itoa port) (HTTP2 c)) []
 \<and> ServeTLS sys banner listen c port certFile keyFile
      = serve sys banner listen (newServer ('':'' @ itoa port) (HTTP2 c)) [certFile, keyFile]
 \<and> ServeCustom sys banner listen s = serve sys banner listen s []
 \<and> ServeCustomTLS sys banner listen s certFile keyFile = serve sys banner listen s [certFile, keyFile]"
  by (simp add: serve_def Let_def Serve_def ServeTLS_def ServeCustom_def ServeCustomTLS_def)


theorem serve_changes_directory_first_witness:
  "Serve removed ''BANNER'' stopped New 3000
     = (Some ''chdir /opt/app: no such file or directory'', [])
 \<and> Serve installed ''BANNER'' stopped New 3000
     = (Some ''server stopped gracefully'',
        [Chdir_to ''/opt/app'', Fprint (Colorize ColorRed ''BANNER'' @ [CHR 0x0A]),
         Fprint (listening '':3000''), ListenAndServe (newServer '':3000'' False)])
 \<and> cwd_after ''/home/frank'' (snd (Serve installed ''BANNER'' stopped New 3000)) = ''/opt/app''"
proof -
  note A = serve_changes_directory_first[where sys = removed and banner = "''BANNER''"
      and listen = stopped and c = New and port = 3000
      and s = "newServer ('':'' @ itoa 3000) (HTTP2 New)" and files = "[]"
      and err = "''chdir /opt/app: no such file or directory''"]
  note B = serve_changes_directory_first[where sys = installed and banner = "''BANNER''"
      and listen = stopped and c = New and port = 3000 and cwd = "''/home/frank''"
      and s = "newServer ('':'' @ itoa 3000) (HTTP2 New)" and files = "[]"]
  have p: "itoa 3000 = ''3000''" by (simp add: itoa_def itoa_nat.simps)
  have ha: "Chdir removed (Dir removed (Executable removed)) = Some ''chdir /opt/app: no such file or directory''"
    by (simp add: removed_def)
  have hb: "Chdir installed (Dir installed (Executable installed)) = None"
    by (simp add: installed_def)
  have 1: "Serve removed ''BANNER'' stopped New 3000 = (Some ''chdir /opt/app: no such file or directory'', [])"
    using A ha unfolding p by simp
  have 2: "cwd_after ''/home/frank'' (snd (Serve installed ''BANNER'' stopped New 3000)) = Dir installed (Executable installed)"
    using B hb unfolding p by simp
  have 3: "Serve installed ''BANNER'' stopped New 3000
     = (Some ''server stopped gracefully'',
        [Chdir_to ''/opt/app'', Fprint (Colorize ColorRed ''BANNER'' @ [CHR 0x0A]),
         Fprint (listening '':3000''), ListenAndServe (newServer '':3000'' False)])"
    by (simp add: Serve_def serve_def installed_def dirOf_def stopped_def p New_def Let_def
        newServer_def)
  show ?thesis using 1 2 3 by (simp add: installed_def dirOf_def newServer_def)
qed


end
